theory Spec2Isabelle
  imports Main
begin

section \<open>pybuild.py: the dependency list and the reconciliation of a virtual environment\<close>

text \<open>
  The program keeps a list of package names in \<^verbatim>\<open>pypackage.json\<close> and drives
  \<^verbatim>\<open>pip\<close> through \<^verbatim>\<open>subprocess.run\<close> until the virtual environment holds the
  declared packages and nothing else, then writes \<^verbatim>\<open>pip freeze\<close> to
  \<^verbatim>\<open>requirements.txt\<close>.

  Modelling decisions:
  \<^item> Strings are \<open>string\<close>; \<^verbatim>\<open>str.lower\<close> is modelled on ASCII letters (package names
    are ASCII), every other character is left as it is.
  \<^item> The outside world (the file system and the processes \<^verbatim>\<open>pip\<close> and
    \<^verbatim>\<open>python3 -m venv\<close>) is a parameter \<open>env\<close>: it answers every process call with a
    return code and the bytes written to stdout, and the answer may depend on
    every call made before. Nothing is assumed about it.
  \<^item> \<^verbatim>\<open>json.loads\<close> is library code: the reading of the output of \<^verbatim>\<open>pip list\<close> as a
    list of objects with a string field \<^verbatim>\<open>name\<close> is the component \<open>json_names\<close> of the
    environment (\<open>None\<close> where Python raises).
  \<^item> The state of a run is the record \<open>world\<close>: the log of the process calls made so far
    with their answers, and the two files the program writes.
  \<^item> \<^verbatim>\<open>exit(-1)\<close> and an uncaught exception are values of the type \<open>error\<close>.
  \<^item> The loop \<^verbatim>\<open>while True\<close> of \<^verbatim>\<open>sync_deps\<close> has no bound, so it takes fuel: the
    number of iterations it may start. A run that uses up its fuel ends in
    \<open>OutOfFuel\<close> with the world it has reached.
  \<^item> The calls of \<^verbatim>\<open>print\<close> are left out.
\<close>

subsection \<open>Lowercase\<close>

definition is_upper :: "char \<Rightarrow> bool" where
  "is_upper c = (65 \<le> (of_char c :: nat) \<and> (of_char c :: nat) \<le> 90)"

definition lower_char :: "char \<Rightarrow> char" where
  "lower_char c = (if is_upper c then char_of ((of_char c :: nat) + 32) else c)"

definition lower :: "string \<Rightarrow> string" where
  "lower s = map lower_char s"

subsection \<open>Data\<close>

record PyPackageJson =
  venv_dir :: string
  dependencies :: "string list"

text \<open>One process call of the log: the command line, the return code, the bytes on stdout.\<close>

record call =
  cmd :: "string list"
  returncode :: int
  stdout :: string

text \<open>
  The content of \<^verbatim>\<open>pypackage.json\<close> as \<^verbatim>\<open>json.load\<close> reads it. \<open>jval\<close> is the result of
  \<^verbatim>\<open>dict.get\<close>: \<open>JNone\<close> for an absent key or \<^verbatim>\<open>null\<close>. A list holding something
  else than strings is outside this model.
\<close>

datatype jval = JNone | JStr string | JList "string list" | JOther

datatype jdoc = JNotDict | JDict jval jval

datatype jfile = NoFile | NotJson | Json jdoc

record world =
  calls :: "call list"
  requirements_txt :: "string option"
  pypackage_json :: jfile

record env =
  isdir :: "call list \<Rightarrow> string \<Rightarrow> bool"
  exec :: "call list \<Rightarrow> string list \<Rightarrow> int \<times> string"
  json_names :: "string \<Rightarrow> string list option"

datatype error = SystemExit int | PyException

datatype 'a result = Return 'a | Fail error | OutOfFuel

text \<open>Sequencing: the rest of a function runs only when the call before it returned.\<close>

definition bind :: "'a result \<times> world \<Rightarrow> ('a \<Rightarrow> world \<Rightarrow> 'b result \<times> world) \<Rightarrow> 'b result \<times> world" where
  "bind m f = (case m of
      (Return x, w) \<Rightarrow> f x w
    | (Fail e, w) \<Rightarrow> (Fail e, w)
    | (OutOfFuel, w) \<Rightarrow> (OutOfFuel, w))"

subsection \<open>The descriptor file\<close>

definition load_pypackagejson :: "world \<Rightarrow> PyPackageJson result" where
  "load_pypackagejson w = (case pypackage_json w of
      NoFile \<Rightarrow> Fail (SystemExit (- 1))
    | NotJson \<Rightarrow> Fail PyException
    | Json doc \<Rightarrow>
        (let errors = (case doc of
             JNotDict \<Rightarrow> [''Invalid contents.'']
           | JDict v d \<Rightarrow>
               (case v of JNone \<Rightarrow> [''venv_dir: not found'']
                        | JStr _ \<Rightarrow> []
                        | _ \<Rightarrow> [''venv_dir: must be a string''])
               @ (case d of JNone \<Rightarrow> []
                          | JList _ \<Rightarrow> []
                          | _ \<Rightarrow> [''dependencies: must be a list'']))
         in if length errors \<noteq> 0 then Fail (SystemExit (- 1))
            else (case doc of
                JDict (JStr v) JNone \<Rightarrow> Return \<lparr>venv_dir = v, dependencies = []\<rparr>
              | JDict (JStr v) (JList d) \<Rightarrow> Return \<lparr>venv_dir = v, dependencies = d\<rparr>
              | _ \<Rightarrow> Fail PyException)))"

definition save_pypackagejson :: "PyPackageJson \<Rightarrow> world \<Rightarrow> world" where
  "save_pypackagejson config w =
     w\<lparr>pypackage_json := Json (JDict (JStr (venv_dir config)) (JList (dependencies config)))\<rparr>"

subsection \<open>Running processes\<close>

definition run :: "env \<Rightarrow> string list \<Rightarrow> bool \<Rightarrow> bool \<Rightarrow> world \<Rightarrow> (int \<times> string option) result \<times> world" where
  "run e c can_fail capture_stdout w =
     (let (rc, out) = exec e (calls w) c;
          w' = w\<lparr>calls := calls w @ [\<lparr>cmd = c, returncode = rc, stdout = out\<rparr>]\<rparr>
      in if \<not> can_fail \<and> rc \<noteq> 0 then (Fail (SystemExit (- 1)), w')
         else (Return (rc, if capture_stdout then Some out else None), w'))"

definition create_venv :: "env \<Rightarrow> PyPackageJson \<Rightarrow> world \<Rightarrow> unit result \<times> world" where
  "create_venv e config w =
     bind (run e [''python3'', ''-m'', ''venv'', venv_dir config] False False w)
       (\<lambda>_ w. (Return (), w))"

definition ensure_venv :: "env \<Rightarrow> PyPackageJson \<Rightarrow> world \<Rightarrow> unit result \<times> world" where
  "ensure_venv e config w =
     (if \<not> isdir e (calls w) (venv_dir config) then create_venv e config w
      else (Return (), w))"

definition pip_bin :: "PyPackageJson \<Rightarrow> string" where
  "pip_bin config = venv_dir config @ ''/bin/pip''"

definition base_packages :: "string set" where
  "base_packages = {''pip'', ''setuptools''}"

definition pip_list_cmd :: "PyPackageJson \<Rightarrow> string list" where
  "pip_list_cmd config =
     [pip_bin config, ''list'', ''--not-required'', ''--format'', ''json'',
      ''--disable-pip-version-check'']"

definition pip_get_installed :: "env \<Rightarrow> PyPackageJson \<Rightarrow> bool \<Rightarrow> world \<Rightarrow> string list result \<times> world" where
  "pip_get_installed e config uninstall_base_packages w =
     bind (run e (pip_list_cmd config) False True w)
       (\<lambda>(_, out) w.
          case out of
            None \<Rightarrow> (Fail PyException, w)
          | Some s \<Rightarrow>
              (case json_names e s of
                 None \<Rightarrow> (Fail PyException, w)
               | Some installed_json \<Rightarrow>
                   (Return (map lower
                      (filter (\<lambda>x. \<not> uninstall_base_packages \<or> x \<notin> base_packages)
                         installed_json)), w)))"

definition pip_install_cmd :: "PyPackageJson \<Rightarrow> string list \<Rightarrow> string list" where
  "pip_install_cmd config packages =
     [pip_bin config, ''install'', ''--disable-pip-version-check''] @ packages"

definition pip_install :: "env \<Rightarrow> PyPackageJson \<Rightarrow> string list \<Rightarrow> world \<Rightarrow> unit result \<times> world" where
  "pip_install e config packages w =
     bind (run e (pip_install_cmd config packages) False False w) (\<lambda>_ w. (Return (), w))"

definition pip_uninstall_cmd :: "PyPackageJson \<Rightarrow> string list \<Rightarrow> string list" where
  "pip_uninstall_cmd config packages =
     [pip_bin config, ''uninstall'', ''--disable-pip-version-check''] @ packages"

definition pip_uninstall :: "env \<Rightarrow> PyPackageJson \<Rightarrow> string list \<Rightarrow> world \<Rightarrow> unit result \<times> world" where
  "pip_uninstall e config packages w =
     bind (run e (pip_uninstall_cmd config packages) False False w) (\<lambda>_ w. (Return (), w))"

definition pip_freeze_cmd :: "PyPackageJson \<Rightarrow> string list" where
  "pip_freeze_cmd config = [pip_bin config, ''freeze'']"

definition pip_freeze :: "env \<Rightarrow> PyPackageJson \<Rightarrow> world \<Rightarrow> unit result \<times> world" where
  "pip_freeze e config w =
     bind (run e (pip_freeze_cmd config) False True w)
       (\<lambda>(_, out) w.
          case out of
            None \<Rightarrow> (Fail PyException, w)
          | Some s \<Rightarrow> (Return (), w\<lparr>requirements_txt := Some s\<rparr>))"

subsection \<open>Reconciliation\<close>

text \<open>The two differences that \<^verbatim>\<open>sync_deps\<close> builds with its \<^verbatim>\<open>for\<close> loops.\<close>

definition to_install :: "string list \<Rightarrow> string list \<Rightarrow> string list" where
  "to_install deps installed = filter (\<lambda>p. p \<notin> set installed) deps"

definition to_uninstall :: "string list \<Rightarrow> string list \<Rightarrow> string list" where
  "to_uninstall deps installed = filter (\<lambda>p. p \<notin> set deps) installed"

text \<open>The loop \<^verbatim>\<open>while True\<close> of \<^verbatim>\<open>sync_deps\<close>; the first argument is the fuel.\<close>

fun sync_loop :: "nat \<Rightarrow> env \<Rightarrow> PyPackageJson \<Rightarrow> world \<Rightarrow> unit result \<times> world" where
  "sync_loop 0 e config w = (OutOfFuel, w)"
| "sync_loop (Suc n) e config w =
     bind (pip_get_installed e config True w)
       (\<lambda>installed w.
          if length (to_uninstall (dependencies config) installed) = 0 then (Return (), w)
          else bind (pip_uninstall e config (to_uninstall (dependencies config) installed) w)
                 (\<lambda>_ w. sync_loop n e config w))"

definition sync_deps :: "nat \<Rightarrow> env \<Rightarrow> PyPackageJson \<Rightarrow> world \<Rightarrow> unit result \<times> world" where
  "sync_deps n e config w =
     bind (ensure_venv e config w)
       (\<lambda>_ w. bind (pip_get_installed e config False w)
          (\<lambda>installed w.
             bind (if length (to_install (dependencies config) installed) > 0
                   then pip_install e config (to_install (dependencies config) installed) w
                   else (Return (), w))
               (\<lambda>_ w. bind (sync_loop n e config w)
                  (\<lambda>_ w. pip_freeze e config w))))"

subsection \<open>The commands that change the dependency list\<close>

text \<open>\<^verbatim>\<open>to_lowercase\<close> overwrites the list index by index.\<close>

definition to_lowercase :: "string list \<Rightarrow> string list" where
  "to_lowercase xs = fold (\<lambda>i ys. ys[i := lower (ys ! i)]) [0..<length xs] xs"

text \<open>The loop of \<^verbatim>\<open>cmd_add\<close> over the lowercased arguments.\<close>

definition add_packages :: "string list \<Rightarrow> string list \<Rightarrow> string list" where
  "add_packages deps packages = fold (\<lambda>p ds. if p \<notin> set ds then ds @ [p] else ds) packages deps"

text \<open>The list comprehension of \<^verbatim>\<open>cmd_rm\<close> over the lowercased arguments.\<close>

definition rm_packages :: "string list \<Rightarrow> string list \<Rightarrow> string list" where
  "rm_packages deps packages = filter (\<lambda>p. p \<notin> set packages) deps"

definition cmd_add :: "nat \<Rightarrow> env \<Rightarrow> string list \<Rightarrow> world \<Rightarrow> unit result \<times> world" where
  "cmd_add n e args w =
     (if length args = 0 then (Fail (SystemExit (- 1)), w)
      else bind (load_pypackagejson w, w)
        (\<lambda>config w.
           let packages = to_lowercase args;
               config = config\<lparr>dependencies := add_packages (dependencies config) packages\<rparr>
           in sync_deps n e config (save_pypackagejson config w)))"

definition cmd_rm :: "nat \<Rightarrow> env \<Rightarrow> string list \<Rightarrow> world \<Rightarrow> unit result \<times> world" where
  "cmd_rm n e args w =
     (if length args = 0 then (Fail (SystemExit (- 1)), w)
      else bind (load_pypackagejson w, w)
        (\<lambda>config w.
           let packages = to_lowercase args;
               config = config\<lparr>dependencies := rm_packages (dependencies config) packages\<rparr>
           in sync_deps n e config (save_pypackagejson config w)))"

subsection \<open>Reading the log\<close>

text \<open>The log entry of the command \<open>c\<close> when it is run after the calls \<open>h\<close>.\<close>

definition answer :: "env \<Rightarrow> call list \<Rightarrow> string list \<Rightarrow> call" where
  "answer e h c = \<lparr>cmd = c, returncode = fst (exec e h c), stdout = snd (exec e h c)\<rparr>"

text \<open>The world with one more entry in its log.\<close>

definition logged :: "call \<Rightarrow> world \<Rightarrow> world" where
  "logged x w = w\<lparr>calls := calls w @ [x]\<rparr>"

text \<open>The calls made between two worlds of one run.\<close>

definition new_calls :: "world \<Rightarrow> world \<Rightarrow> call list" where
  "new_calls w w' = drop (length (calls w)) (calls w')"

text \<open>
  The word after the program name: \<^verbatim>\<open>list\<close>, \<^verbatim>\<open>install\<close>, \<^verbatim>\<open>uninstall\<close> or
  \<^verbatim>\<open>freeze\<close> for the four calls of \<^verbatim>\<open>pip\<close>, and \<^verbatim>\<open>-m\<close> for the creation of the
  virtual environment.
\<close>

definition subcommand :: "call \<Rightarrow> string list" where
  "subcommand x = take 1 (drop 1 (cmd x))"

definition all_ok :: "call list \<Rightarrow> bool" where
  "all_ok cs = list_all (\<lambda>x. returncode x = 0) cs"

text \<open>
  A log fits a result when no call but the last has failed, and the last has failed
  exactly when the result is \<^verbatim>\<open>exit(-1)\<close>.
\<close>

fun fits :: "'a result \<Rightarrow> call list \<Rightarrow> bool" where
  "fits (Fail (SystemExit k)) cs =
     (k = - 1 \<and> cs \<noteq> [] \<and> all_ok (butlast cs) \<and> returncode (last cs) \<noteq> 0)"
| "fits r cs = all_ok cs"

text \<open>The calls of the loop, and the calls that follow the install step.\<close>

definition loop_call :: "call \<Rightarrow> bool" where
  "loop_call x = (subcommand x = [''list''] \<or> subcommand x = [''uninstall''])"

definition tail_call :: "call \<Rightarrow> bool" where
  "tail_call x = (loop_call x \<or> subcommand x = [''freeze''])"

text \<open>
  When the last call of a log is a failed \<^verbatim>\<open>pip install\<close>, the log holds no
  \<^verbatim>\<open>pip uninstall\<close>.
\<close>

definition no_uninstall_before_failed_install :: "call list \<Rightarrow> bool" where
  "no_uninstall_before_failed_install cs =
     (cs = [] \<or> subcommand (last cs) \<noteq> [''install''] \<or> returncode (last cs) = 0
      \<or> list_all (\<lambda>x. subcommand x \<noteq> [''uninstall'']) cs)"

subsection \<open>Concrete environments\<close>

text \<open>
  A world in which nothing has happened yet, a descriptor with the virtual environment in
  \<^verbatim>\<open>.venv\<close>, and four environments in which that directory exists:
  \<^item> \<open>env_const\<close>: every call succeeds and \<^verbatim>\<open>pip list\<close> always reports the same names;
  \<^item> \<open>env_requires\<close>: package \<open>a\<close> requires package \<open>b\<close>, so that after the install
    \<^verbatim>\<open>pip list --not-required\<close> reports \<open>a\<close> and not \<open>b\<close>;
  \<^item> \<open>env_capital\<close>: \<^verbatim>\<open>pip list\<close> reports \<^verbatim>\<open>Pip\<close> with a capital letter until something
    has been uninstalled;
  \<^item> \<open>env_install_fails\<close>: \<^verbatim>\<open>pip install\<close> returns 1.
\<close>

definition world0 :: world where
  "world0 = \<lparr>calls = [], requirements_txt = None, pypackage_json = NoFile\<rparr>"

definition config_of :: "string list \<Rightarrow> PyPackageJson" where
  "config_of deps = \<lparr>venv_dir = ''.venv'', dependencies = deps\<rparr>"

definition env_const :: "string list \<Rightarrow> env" where
  "env_const names =
     \<lparr>isdir = (\<lambda>h d. True), exec = (\<lambda>h c. (0, ''out'')), json_names = (\<lambda>s. Some names)\<rparr>"

definition env_requires :: env where
  "env_requires =
     \<lparr>isdir = (\<lambda>h d. True),
      exec = (\<lambda>h c. if take 1 (drop 1 c) = [''list'']
                     then (0, if list_ex (\<lambda>x. subcommand x = [''install'']) h
                              then ''after'' else ''before'')
                     else (0, ''out'')),
      json_names = (\<lambda>s. if s = ''before'' then Some [''pip'', ''setuptools'']
                         else if s = ''after'' then Some [''pip'', ''setuptools'', ''a'']
                         else None)\<rparr>"

definition env_capital :: env where
  "env_capital =
     \<lparr>isdir = (\<lambda>h d. True),
      exec = (\<lambda>h c. if take 1 (drop 1 c) = [''list'']
                     then (0, if list_ex (\<lambda>x. subcommand x = [''uninstall'']) h
                              then ''after'' else ''before'')
                     else (0, ''out'')),
      json_names = (\<lambda>s. if s = ''before'' then Some [''Pip'', ''setuptools'', ''requests'']
                         else if s = ''after'' then Some [''setuptools'', ''requests'']
                         else None)\<rparr>"

definition env_install_fails :: env where
  "env_install_fails =
     \<lparr>isdir = (\<lambda>h d. True),
      exec = (\<lambda>h c. if take 1 (drop 1 c) = [''install''] then (1, ''error'') else (0, ''out'')),
      json_names = (\<lambda>s. Some [''pip'', ''setuptools''])\<rparr>"

section \<open>Properties of the dependency list\<close>

subsection \<open>Lowercase\<close>

lemma lower_char_idem: "lower_char (lower_char c) = lower_char c"
  by (simp add: lower_char_def is_upper_def)

lemma lower_idem: "lower (lower s) = lower s"
  by (simp add: lower_def lower_char_idem)

lemma lower_char_fixed: "lower_char c = c \<longleftrightarrow> \<not> is_upper c"
proof (cases "is_upper c")
  case True
  have "lower_char c \<noteq> c"
  proof
    assume "lower_char c = c"
    with True have "char_of ((of_char c :: nat) + 32) = c"
      by (simp add: lower_char_def)
    then have "(of_char (char_of ((of_char c :: nat) + 32)) :: nat) = of_char c"
      by simp
    then have "((of_char c :: nat) + 32) mod 256 = of_char c"
      by simp
    moreover from True have "((of_char c :: nat) + 32) mod 256 = of_char c + 32"
      by (simp add: is_upper_def)
    ultimately show False by simp
  qed
  with True show ?thesis by simp
next
  case False
  then show ?thesis by (simp add: lower_char_def)
qed

lemma lower_fixed: "lower s = s \<longleftrightarrow> \<not> list_ex is_upper s"
  by (induction s) (auto simp: lower_def lower_char_fixed)









subsection \<open>Adding and removing names\<close>







section \<open>Properties of the reconciliation\<close>

subsection \<open>Each function as an equation on the log\<close>

lemma bind_Return [simp]: "bind (Return x, w) f = f x w"
  and bind_Fail [simp]: "bind (Fail err, w) f = (Fail err, w)"
  and bind_OutOfFuel [simp]: "bind (OutOfFuel, w) f = (OutOfFuel, w)"
  by (simp_all add: bind_def)

lemma calls_logged [simp]: "calls (logged x w) = calls w @ [x]"
  and requirements_logged [simp]: "requirements_txt (logged x w) = requirements_txt w"
  and pypackage_logged [simp]: "pypackage_json (logged x w) = pypackage_json w"
  by (simp_all add: logged_def)

lemma answer_sel [simp]: "cmd (answer e h c) = c"
  "returncode (answer e h c) = fst (exec e h c)"
  "stdout (answer e h c) = snd (exec e h c)"
  by (simp_all add: answer_def)

lemma run_eq:
  "run e c can_fail capture_stdout w =
     (if \<not> can_fail \<and> returncode (answer e (calls w) c) \<noteq> 0 then Fail (SystemExit (- 1))
      else Return (returncode (answer e (calls w) c),
                   if capture_stdout then Some (stdout (answer e (calls w) c)) else None),
      logged (answer e (calls w) c) w)"
  by (simp add: run_def logged_def answer_def split: prod.splits)

lemma ensure_venv_eq:
  "ensure_venv e config w =
     (if isdir e (calls w) (venv_dir config) then (Return (), w)
      else (if returncode (answer e (calls w) [''python3'', ''-m'', ''venv'', venv_dir config]) \<noteq> 0
            then Fail (SystemExit (- 1)) else Return (),
            logged (answer e (calls w) [''python3'', ''-m'', ''venv'', venv_dir config]) w))"
  by (simp add: ensure_venv_def create_venv_def run_eq)

lemma pip_get_installed_eq:
  "pip_get_installed e config u w =
     (if returncode (answer e (calls w) (pip_list_cmd config)) \<noteq> 0 then Fail (SystemExit (- 1))
      else (case json_names e (stdout (answer e (calls w) (pip_list_cmd config))) of
              None \<Rightarrow> Fail PyException
            | Some ns \<Rightarrow> Return (map lower (filter (\<lambda>x. \<not> u \<or> x \<notin> base_packages) ns))),
      logged (answer e (calls w) (pip_list_cmd config)) w)"
  by (simp add: pip_get_installed_def run_eq split: option.splits)

lemma pip_install_eq:
  "pip_install e config ps w =
     (if returncode (answer e (calls w) (pip_install_cmd config ps)) \<noteq> 0
      then Fail (SystemExit (- 1)) else Return (),
      logged (answer e (calls w) (pip_install_cmd config ps)) w)"
  by (simp add: pip_install_def run_eq)

lemma pip_uninstall_eq:
  "pip_uninstall e config ps w =
     (if returncode (answer e (calls w) (pip_uninstall_cmd config ps)) \<noteq> 0
      then Fail (SystemExit (- 1)) else Return (),
      logged (answer e (calls w) (pip_uninstall_cmd config ps)) w)"
  by (simp add: pip_uninstall_def run_eq)

lemma pip_freeze_eq:
  "pip_freeze e config w =
     (if returncode (answer e (calls w) (pip_freeze_cmd config)) \<noteq> 0
      then (Fail (SystemExit (- 1)), logged (answer e (calls w) (pip_freeze_cmd config)) w)
      else (Return (), (logged (answer e (calls w) (pip_freeze_cmd config)) w)
              \<lparr>requirements_txt := Some (stdout (answer e (calls w) (pip_freeze_cmd config)))\<rparr>))"
  by (simp add: pip_freeze_def run_eq)

lemma sync_loop_Suc:
  "sync_loop (Suc n) e config w =
     (let l = answer e (calls w) (pip_list_cmd config); w1 = logged l w in
      if returncode l \<noteq> 0 then (Fail (SystemExit (- 1)), w1)
      else case json_names e (stdout l) of
          None \<Rightarrow> (Fail PyException, w1)
        | Some ns \<Rightarrow>
            let extra = to_uninstall (dependencies config)
                          (map lower (filter (\<lambda>x. x \<notin> base_packages) ns)) in
            if extra = [] then (Return (), w1)
            else let u = answer e (calls w1) (pip_uninstall_cmd config extra); w2 = logged u w1 in
                 if returncode u \<noteq> 0 then (Fail (SystemExit (- 1)), w2)
                 else sync_loop n e config w2)"
  by (simp add: pip_get_installed_eq pip_uninstall_eq Let_def split: option.splits)

declare sync_loop.simps(2) [simp del]

subsection \<open>The log of the loop\<close>

lemma all_ok_simps [simp]: "all_ok []" "all_ok (x # xs) \<longleftrightarrow> returncode x = 0 \<and> all_ok xs"
  "all_ok (xs @ ys) \<longleftrightarrow> all_ok xs \<and> all_ok ys"
  by (simp_all add: all_ok_def)

lemma fits_append: "all_ok cs1 \<Longrightarrow> fits r cs2 \<Longrightarrow> fits r (cs1 @ cs2)"
proof (cases r)
  case (Fail err)
  assume "all_ok cs1" "fits r cs2"
  with Fail show ?thesis
    by (cases err) (auto simp: butlast_append)
qed simp_all

lemma fits_Return_iff [simp]: "fits (Return x) cs = all_ok cs"
  and fits_OutOfFuel_iff [simp]: "fits OutOfFuel cs = all_ok cs"
  and fits_PyException_iff [simp]: "fits (Fail PyException) cs = all_ok cs"
  by simp_all

lemma fits_failed: "returncode x \<noteq> 0 \<Longrightarrow> fits (Fail (SystemExit (- 1))) [x]"
  by simp

lemma subcommand_answer [simp]:
  "subcommand (answer e h (pip_list_cmd config)) = [''list'']"
  "subcommand (answer e h (pip_install_cmd config ps)) = [''install'']"
  "subcommand (answer e h (pip_uninstall_cmd config ps)) = [''uninstall'']"
  "subcommand (answer e h (pip_freeze_cmd config)) = [''freeze'']"
  "subcommand (answer e h [''python3'', ''-m'', ''venv'', d]) = [''-m'']"
  by (simp_all add: subcommand_def pip_list_cmd_def pip_install_cmd_def pip_uninstall_cmd_def
      pip_freeze_cmd_def)

lemma loop_call_answer [simp]:
  "loop_call (answer e h (pip_list_cmd config))"
  "loop_call (answer e h (pip_uninstall_cmd config ps))"
  by (simp_all add: loop_call_def)

lemma sync_loop_trace:
  "sync_loop n e config w = (r, w') \<Longrightarrow>
     \<exists>rest. calls w' = calls w @ rest
       \<and> requirements_txt w' = requirements_txt w \<and> pypackage_json w' = pypackage_json w
       \<and> list_all loop_call rest \<and> fits r rest"
proof (induction n arbitrary: w)
  case 0
  then show ?case by auto
next
  case (Suc n)
  let ?l = "answer e (calls w) (pip_list_cmd config)"
  let ?w1 = "logged ?l w"
  show ?case
  proof (cases "returncode ?l \<noteq> 0 \<or> json_names e (stdout ?l) = None")
    case True
    with Suc.prems have "w' = ?w1" "fits r [?l]"
      by (auto simp: sync_loop_Suc Let_def split: if_splits)
    then show ?thesis by auto
  next
    case False
    then obtain ns where ns: "returncode ?l = 0" "json_names e (stdout ?l) = Some ns" by auto
    let ?extra = "to_uninstall (dependencies config)
        (map lower (filter (\<lambda>x. x \<notin> base_packages) ns))"
    show ?thesis
    proof (cases "?extra = []")
      case True
      with Suc.prems ns have "w' = ?w1" "r = Return ()"
        by (auto simp: sync_loop_Suc Let_def)
      with ns show ?thesis by auto
    next
      case extra: False
      let ?u = "answer e (calls ?w1) (pip_uninstall_cmd config ?extra)"
      let ?w2 = "logged ?u ?w1"
      show ?thesis
      proof (cases "returncode ?u = 0")
        case False
        with Suc.prems ns extra have "w' = ?w2" "r = Fail (SystemExit (- 1))"
          by (auto simp: sync_loop_Suc Let_def)
        with ns False show ?thesis by auto
      next
        case True
        with Suc.prems ns extra have "sync_loop n e config ?w2 = (r, w')"
          by (auto simp: sync_loop_Suc Let_def)
        from Suc.IH [OF this] obtain rest where rest: "calls w' = calls ?w2 @ rest"
          "requirements_txt w' = requirements_txt ?w2" "pypackage_json w' = pypackage_json ?w2"
          "list_all loop_call rest" "fits r rest"
          by blast
        have "fits r ([?l, ?u] @ rest)"
          using ns True rest(5) by (intro fits_append) simp_all
        with rest show ?thesis
          by (intro exI [of _ "[?l, ?u] @ rest"]) simp
      qed
    qed
  qed
qed

lemma sync_loop_Return:
  "sync_loop n e config w = (Return (), w') \<Longrightarrow>
     \<exists>pre ns. calls w' = calls w @ pre @ [answer e (calls w @ pre) (pip_list_cmd config)]
       \<and> json_names e (stdout (answer e (calls w @ pre) (pip_list_cmd config))) = Some ns
       \<and> to_uninstall (dependencies config)
            (map lower (filter (\<lambda>x. x \<notin> base_packages) ns)) = []"
proof (induction n arbitrary: w)
  case 0
  then show ?case by simp
next
  case (Suc n)
  let ?l = "answer e (calls w) (pip_list_cmd config)"
  let ?w1 = "logged ?l w"
  from Suc.prems obtain ns where ns: "returncode ?l = 0" "json_names e (stdout ?l) = Some ns"
    by (auto simp: sync_loop_Suc Let_def split: if_splits option.splits)
  let ?extra = "to_uninstall (dependencies config)
      (map lower (filter (\<lambda>x. x \<notin> base_packages) ns))"
  show ?case
  proof (cases "?extra = []")
    case True
    with Suc.prems ns have "w' = ?w1"
      by (auto simp: sync_loop_Suc Let_def)
    with ns True show ?thesis
      by (intro exI [of _ "[]"] exI [of _ ns]) simp
  next
    case extra: False
    let ?u = "answer e (calls ?w1) (pip_uninstall_cmd config ?extra)"
    let ?w2 = "logged ?u ?w1"
    from Suc.prems ns extra have "sync_loop n e config ?w2 = (Return (), w')"
      by (auto simp: sync_loop_Suc Let_def split: if_splits)
    from Suc.IH [OF this] obtain pre ns' where
      "calls w' = calls ?w2 @ pre @ [answer e (calls ?w2 @ pre) (pip_list_cmd config)]"
      "json_names e (stdout (answer e (calls ?w2 @ pre) (pip_list_cmd config))) = Some ns'"
      "to_uninstall (dependencies config)
         (map lower (filter (\<lambda>x. x \<notin> base_packages) ns')) = []"
      by blast
    then show ?thesis
      by (intro exI [of _ "[?l, ?u] @ pre"] exI [of _ ns']) simp
  qed
qed

subsection \<open>The log of a whole run\<close>

lemma bind_cases:
  assumes "bind m f = (r, w')"
  obtains (ok) x w1 where "m = (Return x, w1)" "f x w1 = (r, w')"
    | (fail) err where "m = (Fail err, w')" "r = Fail err"
    | (fuel) "m = (OutOfFuel, w')" "r = OutOfFuel"
proof (cases m)
  case (Pair a b)
  with assms show ?thesis
    by (cases a) (auto intro: ok fail fuel)
qed

lemma fits_cast: "fits (Fail err :: 'a result) cs = fits (Fail err :: 'b result) cs"
  by (cases err) simp_all

lemma tail_call_answer [simp]:
  "tail_call (answer e h (pip_list_cmd config))"
  "tail_call (answer e h (pip_uninstall_cmd config ps))"
  "tail_call (answer e h (pip_freeze_cmd config))"
  by (simp_all add: tail_call_def)

lemma tail_call_loop: "list_all loop_call cs \<Longrightarrow> list_all tail_call cs"
  by (induction cs) (simp_all add: tail_call_def)

lemma tail_trace:
  assumes "bind (sync_loop n e config w) (\<lambda>_. pip_freeze e config) = (r, w')"
  shows "\<exists>rest. calls w' = calls w @ rest \<and> pypackage_json w' = pypackage_json w
     \<and> list_all tail_call rest \<and> fits r rest
     \<and> (r = Return () \<or> requirements_txt w' = requirements_txt w)"
  using assms
proof (cases rule: bind_cases)
  case (ok x w1)
  from sync_loop_trace [OF ok(1)] obtain rest where rest: "calls w1 = calls w @ rest"
    "requirements_txt w1 = requirements_txt w" "pypackage_json w1 = pypackage_json w"
    "list_all loop_call rest" "all_ok rest"
    by auto
  let ?f = "answer e (calls w1) (pip_freeze_cmd config)"
  from ok(2) have "calls w' = calls w1 @ [?f]" "pypackage_json w' = pypackage_json w1"
    "fits r [?f]" "r = Return () \<or> requirements_txt w' = requirements_txt w1"
    by (auto simp: pip_freeze_eq split: if_splits)
  with rest show ?thesis
    by (intro exI [of _ "rest @ [?f]"]) (auto simp: tail_call_loop intro: fits_append)
next
  case (fail err)
  from sync_loop_trace [OF fail(1)] fail(2) show ?thesis
    by (auto simp: tail_call_loop fits_cast [of err])
next
  case fuel
  from sync_loop_trace [OF fuel(1)] fuel(2) show ?thesis
    by (auto simp: tail_call_loop)
qed

lemma tail_Return:
  assumes "bind (sync_loop n e config w) (\<lambda>_. pip_freeze e config) = (Return (), w')"
  shows "\<exists>pre ns. calls w' = calls w @ pre @
        [answer e (calls w @ pre) (pip_list_cmd config),
         answer e (calls w @ pre @ [answer e (calls w @ pre) (pip_list_cmd config)])
           (pip_freeze_cmd config)]
     \<and> list_all loop_call pre
     \<and> json_names e (stdout (answer e (calls w @ pre) (pip_list_cmd config))) = Some ns
     \<and> to_uninstall (dependencies config)
          (map lower (filter (\<lambda>x. x \<notin> base_packages) ns)) = []
     \<and> requirements_txt w' = Some (stdout
          (answer e (calls w @ pre @ [answer e (calls w @ pre) (pip_list_cmd config)])
             (pip_freeze_cmd config)))"
  using assms
proof (cases rule: bind_cases)
  case (ok x w1)
  from sync_loop_Return [of n e config w w1] ok(1) obtain pre ns where
    p: "calls w1 = calls w @ pre @ [answer e (calls w @ pre) (pip_list_cmd config)]"
      "json_names e (stdout (answer e (calls w @ pre) (pip_list_cmd config))) = Some ns"
      "to_uninstall (dependencies config)
          (map lower (filter (\<lambda>x. x \<notin> base_packages) ns)) = []"
    by auto
  from sync_loop_trace [OF ok(1)] p(1) have "list_all loop_call pre"
    by auto
  moreover from ok(2) have "calls w' = calls w1 @ [answer e (calls w1) (pip_freeze_cmd config)]"
    "requirements_txt w' = Some (stdout (answer e (calls w1) (pip_freeze_cmd config)))"
    by (auto simp: pip_freeze_eq split: if_splits)
  ultimately show ?thesis using p
    by (intro exI [of _ pre] exI [of _ ns]) simp
qed simp_all

lemma sync_deps_cases:
  assumes "sync_deps n e config w = (r, w')"
  obtains
    (venv_failed) "\<not> isdir e (calls w) (venv_dir config)"
      "returncode (answer e (calls w) [''python3'', ''-m'', ''venv'', venv_dir config]) \<noteq> 0"
      "r = Fail (SystemExit (- 1))"
      "w' = logged (answer e (calls w) [''python3'', ''-m'', ''venv'', venv_dir config]) w"
  | (list_failed) w0 where "ensure_venv e config w = (Return (), w0)"
      "returncode (answer e (calls w0) (pip_list_cmd config)) \<noteq> 0"
      "r = Fail (SystemExit (- 1))"
      "w' = logged (answer e (calls w0) (pip_list_cmd config)) w0"
  | (list_unreadable) w0 where "ensure_venv e config w = (Return (), w0)"
      "returncode (answer e (calls w0) (pip_list_cmd config)) = 0"
      "json_names e (stdout (answer e (calls w0) (pip_list_cmd config))) = None"
      "r = Fail PyException"
      "w' = logged (answer e (calls w0) (pip_list_cmd config)) w0"
  | (install_failed) w0 ns where "ensure_venv e config w = (Return (), w0)"
      "returncode (answer e (calls w0) (pip_list_cmd config)) = 0"
      "json_names e (stdout (answer e (calls w0) (pip_list_cmd config))) = Some ns"
      "to_install (dependencies config) (map lower ns) \<noteq> []"
      "returncode (answer e (calls w0 @ [answer e (calls w0) (pip_list_cmd config)])
         (pip_install_cmd config (to_install (dependencies config) (map lower ns)))) \<noteq> 0"
      "r = Fail (SystemExit (- 1))"
      "w' = logged (answer e (calls w0 @ [answer e (calls w0) (pip_list_cmd config)])
         (pip_install_cmd config (to_install (dependencies config) (map lower ns))))
         (logged (answer e (calls w0) (pip_list_cmd config)) w0)"
  | (nothing_missing) w0 ns where "ensure_venv e config w = (Return (), w0)"
      "returncode (answer e (calls w0) (pip_list_cmd config)) = 0"
      "json_names e (stdout (answer e (calls w0) (pip_list_cmd config))) = Some ns"
      "to_install (dependencies config) (map lower ns) = []"
      "bind (sync_loop n e config (logged (answer e (calls w0) (pip_list_cmd config)) w0))
         (\<lambda>_. pip_freeze e config) = (r, w')"
  | (installed) w0 ns where "ensure_venv e config w = (Return (), w0)"
      "returncode (answer e (calls w0) (pip_list_cmd config)) = 0"
      "json_names e (stdout (answer e (calls w0) (pip_list_cmd config))) = Some ns"
      "to_install (dependencies config) (map lower ns) \<noteq> []"
      "returncode (answer e (calls w0 @ [answer e (calls w0) (pip_list_cmd config)])
         (pip_install_cmd config (to_install (dependencies config) (map lower ns)))) = 0"
      "bind (sync_loop n e config
         (logged (answer e (calls w0 @ [answer e (calls w0) (pip_list_cmd config)])
            (pip_install_cmd config (to_install (dependencies config) (map lower ns))))
            (logged (answer e (calls w0) (pip_list_cmd config)) w0)))
         (\<lambda>_. pip_freeze e config) = (r, w')"
proof -
  from assms have a: "bind (ensure_venv e config w)
       (\<lambda>_ w. bind (pip_get_installed e config False w)
          (\<lambda>installed w.
             bind (if length (to_install (dependencies config) installed) > 0
                   then pip_install e config (to_install (dependencies config) installed) w
                   else (Return (), w))
               (\<lambda>_ w. bind (sync_loop n e config w)
                  (\<lambda>_ w. pip_freeze e config w)))) = (r, w')"
    by (simp add: sync_deps_def)
  from a show ?thesis
  proof (cases rule: bind_cases)
    case (fail err)
    then show ?thesis
      by (intro venv_failed) (auto simp: ensure_venv_eq split: if_splits)
  next
    case fuel
    then show ?thesis by (auto simp: ensure_venv_eq split: if_splits)
  next
    case (ok x w0)
    then have v: "ensure_venv e config w = (Return (), w0)" by simp
    let ?l = "answer e (calls w0) (pip_list_cmd config)"
    from ok(2) show ?thesis
    proof (cases rule: bind_cases)
      case (fail err)
      then have "returncode ?l \<noteq> 0 \<or> json_names e (stdout ?l) = None"
        by (auto simp: pip_get_installed_eq split: if_splits option.splits)
      then show ?thesis
      proof
        assume "returncode ?l \<noteq> 0"
        with fail show ?thesis
          by (intro list_failed [OF v]) (auto simp: pip_get_installed_eq)
      next
        assume n: "json_names e (stdout ?l) = None"
        show ?thesis
        proof (cases "returncode ?l = 0")
          case True
          with fail n show ?thesis
            by (intro list_unreadable [OF v]) (auto simp: pip_get_installed_eq)
        next
          case False
          with fail show ?thesis
            by (intro list_failed [OF v]) (auto simp: pip_get_installed_eq)
        qed
      qed
    next
      case fuel
      then show ?thesis
        by (auto simp: pip_get_installed_eq split: if_splits option.splits)
    next
      case (ok installed w1)
      then obtain ns where ns: "returncode ?l = 0" "json_names e (stdout ?l) = Some ns"
        "installed = map lower ns" "w1 = logged ?l w0"
        by (auto simp: pip_get_installed_eq split: if_splits option.splits)
      let ?missing = "to_install (dependencies config) (map lower ns)"
      let ?i = "answer e (calls w0 @ [?l]) (pip_install_cmd config ?missing)"
      show ?thesis
      proof (cases "?missing = []")
        case True
        with ok(2) ns show ?thesis
          by (intro nothing_missing [OF v ns(1,2)]) simp_all
      next
        case False
        show ?thesis
        proof (cases "returncode ?i = 0")
          case True
          with ok(2) ns False show ?thesis
            by (intro installed [OF v ns(1,2)]) (simp_all add: pip_install_eq)
        next
          case f: False
          with ok(2) ns False show ?thesis
            by (intro install_failed [OF v ns(1,2)]) (simp_all add: pip_install_eq)
        qed
      qed
    qed
  qed
qed

lemma ensure_venv_Return:
  assumes "ensure_venv e config w = (Return (), w0)"
  shows "\<exists>v. calls w0 = calls w @ v \<and> all_ok v \<and> list_all (\<lambda>x. subcommand x = [''-m'']) v
    \<and> requirements_txt w0 = requirements_txt w \<and> pypackage_json w0 = pypackage_json w"
proof (cases "isdir e (calls w) (venv_dir config)")
  case True
  with assms show ?thesis by (simp add: ensure_venv_eq)
next
  case False
  with assms show ?thesis
    by (intro exI [of _ "[answer e (calls w) [''python3'', ''-m'', ''venv'', venv_dir config]]"])
      (auto simp: ensure_venv_eq split: if_splits)
qed

lemma new_calls_append: "calls w' = calls w @ xs \<Longrightarrow> new_calls w w' = xs"
  by (simp add: new_calls_def)

lemma all_ok_nth: "all_ok cs \<Longrightarrow> i < length cs \<Longrightarrow> returncode (cs ! i) = 0"
  by (simp add: all_ok_def list_all_length)

lemma fits_failure:
  assumes "fits r cs" and "i < length cs" and "returncode (cs ! i) \<noteq> 0"
  shows "Suc i = length cs \<and> r = Fail (SystemExit (- 1))"
proof (cases "\<exists>k. r = Fail (SystemExit k)")
  case True
  then obtain k where k: "r = Fail (SystemExit k)" by blast
  with assms(1) have f: "k = - 1" "cs \<noteq> []" "all_ok (butlast cs)" by simp_all
  have "\<not> i < length (butlast cs)"
  proof
    assume "i < length (butlast cs)"
    with f(3) have "returncode (butlast cs ! i) = 0" by (rule all_ok_nth)
    with \<open>i < length (butlast cs)\<close> assms(3) show False by (simp add: nth_butlast)
  qed
  with assms(2) k f show ?thesis by simp
next
  case False
  have "all_ok cs"
  proof (cases r)
    case (Fail err)
    with False assms(1) show ?thesis by (cases err) auto
  qed (use assms(1) in simp_all)
  with assms all_ok_nth show ?thesis by blast
qed

lemma tail_call_not_install: "tail_call x \<Longrightarrow> subcommand x \<noteq> [''install'']"
  by (auto simp: tail_call_def loop_call_def)

lemma list_all_tail_last: "list_all tail_call cs \<Longrightarrow> cs \<noteq> [] \<Longrightarrow> tail_call (last cs)"
  by (induction cs) (auto split: if_splits)

lemma venv_not_uninstall:
  "list_all (\<lambda>x. subcommand x = [''-m'']) v \<Longrightarrow> list_all (\<lambda>x. subcommand x \<noteq> [''uninstall'']) v"
  by (induction v) auto

lemma sync_deps_trace:
  assumes "sync_deps n e config w = (r, w')"
  shows "\<exists>new. calls w' = calls w @ new \<and> pypackage_json w' = pypackage_json w
    \<and> fits r new \<and> (r = Return () \<or> requirements_txt w' = requirements_txt w)
    \<and> no_uninstall_before_failed_install new"
  using assms
proof (cases rule: sync_deps_cases)
  case venv_failed
  then show ?thesis
    by (intro exI [of _ "[answer e (calls w) [''python3'', ''-m'', ''venv'', venv_dir config]]"])
      (simp add: no_uninstall_before_failed_install_def)
next
  case (list_failed w0)
  from ensure_venv_Return [OF list_failed(1)] obtain v where v: "calls w0 = calls w @ v"
    "all_ok v" "requirements_txt w0 = requirements_txt w" "pypackage_json w0 = pypackage_json w"
    by blast
  have "fits r (v @ [answer e (calls w0) (pip_list_cmd config)])"
    using v(2) list_failed(2,3) by (intro fits_append) simp_all
  with v list_failed show ?thesis
    by (intro exI [of _ "v @ [answer e (calls w0) (pip_list_cmd config)]"])
      (simp add: no_uninstall_before_failed_install_def)
next
  case (list_unreadable w0)
  from ensure_venv_Return [OF list_unreadable(1)] obtain v where v: "calls w0 = calls w @ v"
    "all_ok v" "requirements_txt w0 = requirements_txt w" "pypackage_json w0 = pypackage_json w"
    by blast
  with list_unreadable show ?thesis
    by (intro exI [of _ "v @ [answer e (calls w0) (pip_list_cmd config)]"])
      (simp add: no_uninstall_before_failed_install_def)
next
  case (install_failed w0 ns)
  from ensure_venv_Return [OF install_failed(1)] obtain v where v: "calls w0 = calls w @ v"
    "all_ok v" "list_all (\<lambda>x. subcommand x = [''-m'']) v"
    "requirements_txt w0 = requirements_txt w" "pypackage_json w0 = pypackage_json w"
    by blast
  let ?l = "answer e (calls w0) (pip_list_cmd config)"
  let ?i = "answer e (calls w0 @ [?l])
      (pip_install_cmd config (to_install (dependencies config) (map lower ns)))"
  have "fits r ((v @ [?l]) @ [?i])"
    using v(2) install_failed(2,5,6) by (intro fits_append) simp_all
  moreover have "list_all (\<lambda>x. subcommand x \<noteq> [''uninstall'']) (v @ [?l, ?i])"
    using venv_not_uninstall [OF v(3)] by simp
  ultimately show ?thesis using v install_failed
    by (intro exI [of _ "v @ [?l, ?i]"]) (simp add: no_uninstall_before_failed_install_def)
next
  case (nothing_missing w0 ns)
  from ensure_venv_Return [OF nothing_missing(1)] obtain v where v: "calls w0 = calls w @ v"
    "all_ok v" "requirements_txt w0 = requirements_txt w" "pypackage_json w0 = pypackage_json w"
    by blast
  let ?l = "answer e (calls w0) (pip_list_cmd config)"
  from tail_trace [OF nothing_missing(5)] obtain rest where rest:
    "calls w' = calls (logged ?l w0) @ rest" "pypackage_json w' = pypackage_json (logged ?l w0)"
    "list_all tail_call rest" "fits r rest"
    "r = Return () \<or> requirements_txt w' = requirements_txt (logged ?l w0)"
    by blast
  have "fits r ((v @ [?l]) @ rest)"
    using v(2) nothing_missing(2) rest(4) by (intro fits_append) simp_all
  moreover have "no_uninstall_before_failed_install ((v @ [?l]) @ rest)"
  proof (cases "rest = []")
    case True
    then show ?thesis by (simp add: no_uninstall_before_failed_install_def)
  next
    case False
    with list_all_tail_last [OF rest(3)] have "subcommand (last rest) \<noteq> [''install'']"
      by (simp add: tail_call_not_install)
    with False show ?thesis by (simp add: no_uninstall_before_failed_install_def)
  qed
  ultimately show ?thesis using v rest
    by (intro exI [of _ "(v @ [?l]) @ rest"]) auto
next
  case (installed w0 ns)
  from ensure_venv_Return [OF installed(1)] obtain v where v: "calls w0 = calls w @ v"
    "all_ok v" "requirements_txt w0 = requirements_txt w" "pypackage_json w0 = pypackage_json w"
    by blast
  let ?l = "answer e (calls w0) (pip_list_cmd config)"
  let ?i = "answer e (calls w0 @ [?l])
      (pip_install_cmd config (to_install (dependencies config) (map lower ns)))"
  from tail_trace [OF installed(6)] obtain rest where rest:
    "calls w' = calls (logged ?i (logged ?l w0)) @ rest"
    "pypackage_json w' = pypackage_json (logged ?i (logged ?l w0))"
    "list_all tail_call rest" "fits r rest"
    "r = Return () \<or> requirements_txt w' = requirements_txt (logged ?i (logged ?l w0))"
    by blast
  have "fits r ((v @ [?l, ?i]) @ rest)"
    using v(2) installed(2,5) rest(4) by (intro fits_append) simp_all
  moreover have "no_uninstall_before_failed_install ((v @ [?l, ?i]) @ rest)"
  proof (cases "rest = []")
    case True
    with installed(5) show ?thesis by (simp add: no_uninstall_before_failed_install_def)
  next
    case False
    with list_all_tail_last [OF rest(3)] have "subcommand (last rest) \<noteq> [''install'']"
      by (simp add: tail_call_not_install)
    with False show ?thesis by (simp add: no_uninstall_before_failed_install_def)
  qed
  ultimately show ?thesis using v rest
    by (intro exI [of _ "(v @ [?l, ?i]) @ rest"]) auto
qed

lemma pip_get_installed_Return:
  assumes "pip_get_installed e config u w = (Return installed, w1)"
  shows "\<exists>ns. returncode (answer e (calls w) (pip_list_cmd config)) = 0
    \<and> json_names e (stdout (answer e (calls w) (pip_list_cmd config))) = Some ns
    \<and> installed = map lower (filter (\<lambda>x. \<not> u \<or> x \<notin> base_packages) ns)
    \<and> w1 = logged (answer e (calls w) (pip_list_cmd config)) w"
  using assms by (auto simp: pip_get_installed_eq split: if_splits option.splits)

lemma sync_deps_prefix:
  assumes "ensure_venv e config w = (Return (), w0)"
    and "pip_get_installed e config False w0 = (Return installed, w1)"
    and "sync_deps n e config w = (r, w')"
  shows "\<exists>rest. calls w' = calls w1 @
      (if to_install (dependencies config) installed = [] then []
       else [answer e (calls w1)
               (pip_install_cmd config (to_install (dependencies config) installed))]) @ rest
    \<and> list_all tail_call rest"
proof -
  from pip_get_installed_Return [OF assms(2)] obtain ns where ns:
    "returncode (answer e (calls w0) (pip_list_cmd config)) = 0"
    "json_names e (stdout (answer e (calls w0) (pip_list_cmd config))) = Some ns"
    "installed = map lower ns"
    "w1 = logged (answer e (calls w0) (pip_list_cmd config)) w0"
    by auto
  from assms(3) show ?thesis
  proof (cases rule: sync_deps_cases)
    case venv_failed
    with assms(1) show ?thesis by (simp add: ensure_venv_eq)
  next
    case (list_failed w0')
    with assms(1) ns show ?thesis by simp
  next
    case (list_unreadable w0')
    with assms(1) ns show ?thesis by simp
  next
    case (install_failed w0' ns')
    with assms(1) ns show ?thesis by (intro exI [of _ "[]"]) simp
  next
    case (nothing_missing w0' ns')
    with assms(1) ns have t: "to_install (dependencies config) installed = []"
      "bind (sync_loop n e config w1) (\<lambda>_. pip_freeze e config) = (r, w')"
      by simp_all
    from tail_trace [OF t(2)] t(1) show ?thesis by auto
  next
    case (installed w0' ns')
    with assms(1) ns have t: "to_install (dependencies config) installed \<noteq> []"
      "bind (sync_loop n e config (logged (answer e (calls w1)
          (pip_install_cmd config (to_install (dependencies config) installed))) w1))
        (\<lambda>_. pip_freeze e config) = (r, w')"
      by simp_all
    from tail_trace [OF t(2)] t(1) show ?thesis by auto
  qed
qed

lemma venv_not_freeze:
  "list_all (\<lambda>x. subcommand x = [''-m'']) v \<Longrightarrow> list_all (\<lambda>x. subcommand x \<noteq> [''freeze'']) v"
  by (induction v) auto

lemma loop_not_freeze:
  "list_all loop_call cs \<Longrightarrow> list_all (\<lambda>x. subcommand x \<noteq> [''freeze'']) cs"
  by (induction cs) (auto simp: loop_call_def)

lemma sync_deps_Return:
  assumes "sync_deps n e config w = (Return (), w')"
  shows "\<exists>pre ns. calls w' = calls w @ pre @
        [answer e (calls w @ pre) (pip_list_cmd config),
         answer e (calls w @ pre @ [answer e (calls w @ pre) (pip_list_cmd config)])
           (pip_freeze_cmd config)]
     \<and> list_all (\<lambda>x. subcommand x \<noteq> [''freeze'']) pre
     \<and> json_names e (stdout (answer e (calls w @ pre) (pip_list_cmd config))) = Some ns
     \<and> to_uninstall (dependencies config)
          (map lower (filter (\<lambda>x. x \<notin> base_packages) ns)) = []
     \<and> requirements_txt w' = Some (stdout
          (answer e (calls w @ pre @ [answer e (calls w @ pre) (pip_list_cmd config)])
             (pip_freeze_cmd config)))"
  using assms
proof (cases rule: sync_deps_cases)
  case (nothing_missing w0 ns0)
  from ensure_venv_Return [OF nothing_missing(1)] obtain v where v: "calls w0 = calls w @ v"
    "list_all (\<lambda>x. subcommand x = [''-m'']) v"
    by blast
  let ?l = "answer e (calls w0) (pip_list_cmd config)"
  from tail_Return [OF nothing_missing(5)] obtain pre ns where p:
    "calls w' = calls (logged ?l w0) @ pre @
        [answer e (calls (logged ?l w0) @ pre) (pip_list_cmd config),
         answer e (calls (logged ?l w0) @ pre @
             [answer e (calls (logged ?l w0) @ pre) (pip_list_cmd config)])
           (pip_freeze_cmd config)]"
    "list_all loop_call pre"
    "json_names e (stdout (answer e (calls (logged ?l w0) @ pre) (pip_list_cmd config))) = Some ns"
    "to_uninstall (dependencies config)
          (map lower (filter (\<lambda>x. x \<notin> base_packages) ns)) = []"
    "requirements_txt w' = Some (stdout
          (answer e (calls (logged ?l w0) @ pre @
              [answer e (calls (logged ?l w0) @ pre) (pip_list_cmd config)])
             (pip_freeze_cmd config)))"
    by blast
  have "list_all (\<lambda>x. subcommand x \<noteq> [''freeze'']) (v @ [?l] @ pre)"
    using venv_not_freeze [OF v(2)] loop_not_freeze [OF p(2)] by simp
  with p v(1) show ?thesis
    by (intro exI [of _ "v @ [?l] @ pre"] exI [of _ ns]) simp
next
  case (installed w0 ns0)
  from ensure_venv_Return [OF installed(1)] obtain v where v: "calls w0 = calls w @ v"
    "list_all (\<lambda>x. subcommand x = [''-m'']) v"
    by blast
  let ?l = "answer e (calls w0) (pip_list_cmd config)"
  let ?i = "answer e (calls w0 @ [?l])
      (pip_install_cmd config (to_install (dependencies config) (map lower ns0)))"
  let ?w2 = "logged ?i (logged ?l w0)"
  from tail_Return [OF installed(6)] obtain pre ns where p:
    "calls w' = calls ?w2 @ pre @
        [answer e (calls ?w2 @ pre) (pip_list_cmd config),
         answer e (calls ?w2 @ pre @ [answer e (calls ?w2 @ pre) (pip_list_cmd config)])
           (pip_freeze_cmd config)]"
    "list_all loop_call pre"
    "json_names e (stdout (answer e (calls ?w2 @ pre) (pip_list_cmd config))) = Some ns"
    "to_uninstall (dependencies config)
          (map lower (filter (\<lambda>x. x \<notin> base_packages) ns)) = []"
    "requirements_txt w' = Some (stdout
          (answer e (calls ?w2 @ pre @ [answer e (calls ?w2 @ pre) (pip_list_cmd config)])
             (pip_freeze_cmd config)))"
    by blast
  have "list_all (\<lambda>x. subcommand x \<noteq> [''freeze'']) (v @ [?l, ?i] @ pre)"
    using venv_not_freeze [OF v(2)] loop_not_freeze [OF p(2)] by simp
  with p v(1) show ?thesis
    by (intro exI [of _ "v @ [?l, ?i] @ pre"] exI [of _ ns]) simp
qed simp_all

subsection \<open>Evaluation on concrete environments\<close>

lemmas eval_defs = sync_deps_def sync_loop.simps bind_def ensure_venv_def create_venv_def
  pip_get_installed_def run_def pip_list_cmd_def pip_bin_def to_install_def to_uninstall_def
  pip_install_def pip_install_cmd_def pip_uninstall_def pip_uninstall_cmd_def pip_freeze_def
  pip_freeze_cmd_def base_packages_def lower_def lower_char_def is_upper_def char_of_def
  bit_Suc_0_iff subcommand_def answer_def logged_def new_calls_def world0_def config_of_def
  env_const_def env_requires_def env_capital_def env_install_fails_def

lemma run_requires:
  "sync_deps 1 env_requires (config_of [''a'', ''b'']) world0 =
    (Return (),
     \<lparr>calls =
       [\<lparr>cmd = [''.venv/bin/pip'', ''list'', ''--not-required'', ''--format'', ''json'',
                 ''--disable-pip-version-check''], returncode = 0, stdout = ''before''\<rparr>,
        \<lparr>cmd = [''.venv/bin/pip'', ''install'', ''--disable-pip-version-check'', ''a'', ''b''],
          returncode = 0, stdout = ''out''\<rparr>,
        \<lparr>cmd = [''.venv/bin/pip'', ''list'', ''--not-required'', ''--format'', ''json'',
                 ''--disable-pip-version-check''], returncode = 0, stdout = ''after''\<rparr>,
        \<lparr>cmd = [''.venv/bin/pip'', ''freeze''], returncode = 0, stdout = ''out''\<rparr>],
      requirements_txt = Some ''out'', pypackage_json = NoFile\<rparr>)"
  by (simp add: eval_defs)

lemma run_install_fails:
  "sync_deps 1 env_install_fails (config_of [''x'']) world0 =
    (Fail (SystemExit (- 1)),
     \<lparr>calls =
       [\<lparr>cmd = [''.venv/bin/pip'', ''list'', ''--not-required'', ''--format'', ''json'',
                 ''--disable-pip-version-check''], returncode = 0, stdout = ''out''\<rparr>,
        \<lparr>cmd = [''.venv/bin/pip'', ''install'', ''--disable-pip-version-check'', ''x''],
          returncode = 1, stdout = ''error''\<rparr>],
      requirements_txt = None, pypackage_json = NoFile\<rparr>)"
  by (simp add: eval_defs)


lemma answer_const [simp]:
  "answer (env_const names) h c = \<lparr>cmd = c, returncode = 0, stdout = ''out''\<rparr>"
  by (simp add: answer_def env_const_def)

lemma json_names_const [simp]: "json_names (env_const names) s = Some names"
  by (simp add: env_const_def)

lemma isdir_const [simp]: "isdir (env_const names) h d"
  by (simp add: env_const_def)

subsection \<open>Lemmas on the calls of a run\<close>





lemma lower_no_upper [simp]: "\<not> list_ex is_upper (lower q)"
  using lower_fixed [of "lower q"] lower_idem [of q] by simp

lemma upper_not_lowered: "list_ex is_upper p \<Longrightarrow> p \<noteq> lower q"
  by auto

lemma stuck_extra:
  "''leftover'' \<notin> base_packages"
  "to_uninstall (dependencies (config_of [])) [lower ''leftover''] = [''leftover'']"
  by (simp_all add: eval_defs)

lemma stuck_loop:
  "sync_loop n (env_const [''leftover'']) (config_of []) w =
     (OutOfFuel, w\<lparr>calls := calls w @ concat (replicate n
        [\<lparr>cmd = pip_list_cmd (config_of []), returncode = 0, stdout = ''out''\<rparr>,
         \<lparr>cmd = pip_uninstall_cmd (config_of []) [''leftover''], returncode = 0,
           stdout = ''out''\<rparr>])\<rparr>)"
proof (induction n arbitrary: w)
  case 0
  then show ?case by simp
next
  case (Suc n)
  show ?case
    by (simp add: sync_loop_Suc stuck_extra Suc.IH logged_def Let_def)
qed

lemma sync_loop_uninstalls:
  assumes "sync_loop n e config w = (r, w')"
    and "new_calls w w' = pre @ u # post" and "subcommand u = [''uninstall'']"
  shows "\<exists>pre' ns. pre = pre' @ [answer e (calls w @ pre') (pip_list_cmd config)]
    \<and> json_names e (stdout (answer e (calls w @ pre') (pip_list_cmd config))) = Some ns
    \<and> u = answer e (calls w @ pre)
        (pip_uninstall_cmd config (to_uninstall (dependencies config)
           (map lower (filter (\<lambda>x. x \<notin> base_packages) ns))))"
  using assms
proof (induction n arbitrary: w pre)
  case 0
  then show ?case by (simp add: new_calls_def)
next
  case (Suc n)
  let ?l = "answer e (calls w) (pip_list_cmd config)"
  let ?w1 = "logged ?l w"
  show ?case
  proof (cases "returncode ?l \<noteq> 0 \<or> json_names e (stdout ?l) = None")
    case True
    with Suc.prems(1) have "w' = ?w1"
      by (auto simp: sync_loop_Suc Let_def split: if_splits)
    then have "new_calls w w' = [?l]" by (simp add: new_calls_def)
    with Suc.prems(2,3) show ?thesis
      by (auto simp: Cons_eq_append_conv)
  next
    case False
    then obtain ns where ns: "returncode ?l = 0" "json_names e (stdout ?l) = Some ns" by auto
    let ?extra = "to_uninstall (dependencies config)
        (map lower (filter (\<lambda>x. x \<notin> base_packages) ns))"
    show ?thesis
    proof (cases "?extra = []")
      case True
      with Suc.prems(1) ns have "w' = ?w1"
        by (auto simp: sync_loop_Suc Let_def)
      then have "new_calls w w' = [?l]" by (simp add: new_calls_def)
      with Suc.prems(2,3) show ?thesis
        by (auto simp: Cons_eq_append_conv)
    next
      case extra: False
      let ?u = "answer e (calls ?w1) (pip_uninstall_cmd config ?extra)"
      let ?w2 = "logged ?u ?w1"
      have step: "sync_loop (Suc n) e config w =
          (if returncode ?u \<noteq> 0 then (Fail (SystemExit (- 1)), ?w2)
           else sync_loop n e config ?w2)"
        using ns extra by (simp add: sync_loop_Suc Let_def)
      obtain rest where rest: "calls w' = calls ?w2 @ rest"
      proof (cases "returncode ?u = 0")
        case True
        with step Suc.prems(1) have "sync_loop n e config ?w2 = (r, w')" by simp
        from sync_loop_trace [OF this] that show ?thesis by blast
      next
        case False
        with step Suc.prems(1) have "w' = ?w2" by simp
        with that [of "[]"] show ?thesis by simp
      qed
      then have new: "new_calls w w' = ?l # ?u # rest"
        by (simp add: new_calls_def)
      from new Suc.prems(2) have "?l # ?u # rest = pre @ u # post" by simp
      then consider (first) "pre = []" "u = ?l"
        | (second) "pre = [?l]" "u = ?u"
        | (later) pre2 where "pre = ?l # ?u # pre2" "rest = pre2 @ u # post"
        by (auto simp: Cons_eq_append_conv)
      then show ?thesis
      proof cases
        case first
        with Suc.prems(3) show ?thesis by simp
      next
        case second
        with ns show ?thesis
          by (intro exI [of _ "[]"] exI [of _ ns]) simp
      next
        case (later pre2)
        have run: "sync_loop n e config ?w2 = (r, w')"
        proof (cases "returncode ?u = 0")
          case True
          with step Suc.prems(1) show ?thesis by simp
        next
          case False
          with step Suc.prems(1) have "w' = ?w2" by simp
          with rest later(2) show ?thesis by simp
        qed
        from rest later(2) have "new_calls ?w2 w' = pre2 @ u # post"
          by (simp add: new_calls_def)
        from Suc.IH [OF run this Suc.prems(3)] obtain pre' ns' where p:
          "pre2 = pre' @ [answer e (calls ?w2 @ pre') (pip_list_cmd config)]"
          "json_names e (stdout (answer e (calls ?w2 @ pre') (pip_list_cmd config))) = Some ns'"
          "u = answer e (calls ?w2 @ pre2)
            (pip_uninstall_cmd config (to_uninstall (dependencies config)
               (map lower (filter (\<lambda>x. x \<notin> base_packages) ns'))))"
          by blast
        with later(1) show ?thesis
          by (intro exI [of _ "?l # ?u # pre'"] exI [of _ ns']) simp
      qed
    qed
  qed
qed

lemma loop_capital:
  "sync_loop (Suc (Suc 0)) env_capital (config_of [''requests'']) world0 =
    (Return (),
     \<lparr>calls =
       [\<lparr>cmd = [''.venv/bin/pip'', ''list'', ''--not-required'', ''--format'', ''json'',
                 ''--disable-pip-version-check''], returncode = 0, stdout = ''before''\<rparr>,
        \<lparr>cmd = [''.venv/bin/pip'', ''uninstall'', ''--disable-pip-version-check'', ''pip''],
          returncode = 0, stdout = ''out''\<rparr>,
        \<lparr>cmd = [''.venv/bin/pip'', ''list'', ''--not-required'', ''--format'', ''json'',
                 ''--disable-pip-version-check''], returncode = 0, stdout = ''after''\<rparr>],
      requirements_txt = None, pypackage_json = NoFile\<rparr>)"
  by (simp add: eval_defs)

subsection \<open>Fuel\<close>

text \<open>More fuel does not change a run that has ended.\<close>

lemma sync_loop_more_fuel:
  "sync_loop n e config w = (r, w') \<Longrightarrow> r \<noteq> OutOfFuel \<Longrightarrow>
   sync_loop (Suc n) e config w = (r, w')"
proof (induction n arbitrary: w)
  case 0
  then show ?case by simp
next
  case (Suc n)
  let ?l = "answer e (calls w) (pip_list_cmd config)"
  show ?case
  proof (cases "returncode ?l = 0")
    case False
    with Suc.prems show ?thesis by (simp add: sync_loop_Suc Let_def)
  next
    case True
    show ?thesis
    proof (cases "json_names e (stdout ?l)")
      case None
      with True Suc.prems show ?thesis by (simp add: sync_loop_Suc Let_def)
    next
      case (Some ns)
      let ?extra = "to_uninstall (dependencies config)
          (map lower (filter (\<lambda>x. x \<notin> base_packages) ns))"
      let ?u = "answer e (calls (logged ?l w)) (pip_uninstall_cmd config ?extra)"
      show ?thesis
      proof (cases "?extra = [] \<or> returncode ?u \<noteq> 0")
        case True
        with \<open>returncode ?l = 0\<close> Some Suc.prems show ?thesis
          by (auto simp: sync_loop_Suc Let_def)
      next
        case False
        with \<open>returncode ?l = 0\<close> Some Suc.prems(1)
        have "sync_loop n e config (logged ?u (logged ?l w)) = (r, w')"
          by (simp add: sync_loop_Suc Let_def)
        from Suc.IH [OF this Suc.prems(2)] False \<open>returncode ?l = 0\<close> Some
        show ?thesis
          by (subst sync_loop_Suc) (simp add: Let_def)
      qed
    qed
  qed
qed

lemma sync_deps_more_fuel:
  assumes "sync_deps n e config w = (r, w')" and "r \<noteq> OutOfFuel"
  shows "sync_deps (Suc n) e config w = (r, w')"
proof -
  have t: "bind (sync_loop (Suc n) e config w1) (\<lambda>_. pip_freeze e config) = (r, w')"
    if "bind (sync_loop n e config w1) (\<lambda>_. pip_freeze e config) = (r, w')" for w1
    using that
  proof (cases rule: bind_cases)
    case (ok x w2)
    then have "sync_loop (Suc n) e config w1 = (Return x, w2)"
      by (intro sync_loop_more_fuel) simp_all
    with ok show ?thesis by (simp del: sync_loop.simps)
  next
    case (fail err)
    then have "sync_loop (Suc n) e config w1 = (Fail err, w')"
      by (intro sync_loop_more_fuel) simp_all
    with fail show ?thesis by (simp del: sync_loop.simps)
  next
    case fuel
    with assms(2) show ?thesis by simp
  qed
  from assms(1) show ?thesis
  proof (cases rule: sync_deps_cases)
    case (nothing_missing w0 ns)
    from t [OF nothing_missing(5)] nothing_missing(1-4) show ?thesis
      by (simp add: sync_deps_def pip_get_installed_eq del: sync_loop.simps)
  next
    case (installed w0 ns)
    from t [OF installed(6)] installed(1-5) show ?thesis
      by (simp add: sync_deps_def pip_get_installed_eq pip_install_eq del: sync_loop.simps)
  qed (simp_all add: sync_deps_def ensure_venv_eq pip_get_installed_eq pip_install_eq
      del: sync_loop.simps)
qed

subsection \<open>The descriptor after the commands\<close>

text \<open>What \<^verbatim>\<open>cmd_add\<close> and \<^verbatim>\<open>cmd_rm\<close> leave in \<^verbatim>\<open>pypackage.json\<close>.\<close>

lemma load_save: "load_pypackagejson (save_pypackagejson config w) = Return config"
  by (simp add: load_pypackagejson_def save_pypackagejson_def)

lemma cmd_add_saves:
  assumes "load_pypackagejson w = Return config" and "args \<noteq> []"
  shows "pypackage_json (snd (cmd_add n e args w)) =
    Json (JDict (JStr (venv_dir config))
      (JList (add_packages (dependencies config) (to_lowercase args))))"
proof -
  let ?c = "config\<lparr>dependencies := add_packages (dependencies config) (to_lowercase args)\<rparr>"
  obtain r w' where s: "sync_deps n e ?c (save_pypackagejson ?c w) = (r, w')"
    by (cases "sync_deps n e ?c (save_pypackagejson ?c w)")
  from sync_deps_trace [OF s] have "pypackage_json w' = pypackage_json (save_pypackagejson ?c w)"
    by blast
  with assms s show ?thesis
    by (simp add: cmd_add_def Let_def save_pypackagejson_def)
qed

lemma cmd_rm_saves:
  assumes "load_pypackagejson w = Return config" and "args \<noteq> []"
  shows "pypackage_json (snd (cmd_rm n e args w)) =
    Json (JDict (JStr (venv_dir config))
      (JList (rm_packages (dependencies config) (to_lowercase args))))"
proof -
  let ?c = "config\<lparr>dependencies := rm_packages (dependencies config) (to_lowercase args)\<rparr>"
  obtain r w' where s: "sync_deps n e ?c (save_pypackagejson ?c w) = (r, w')"
    by (cases "sync_deps n e ?c (save_pypackagejson ?c w)")
  from sync_deps_trace [OF s] have "pypackage_json w' = pypackage_json (save_pypackagejson ?c w)"
    by blast
  with assms s show ?thesis
    by (simp add: cmd_rm_def Let_def save_pypackagejson_def)
qed

section \<open>The claims\<close>

subsection \<open>C1: what a successful run guarantees\<close>

text \<open>
  C1 as stated (after a successful run the installed top-level packages without the base
  packages are exactly the declared ones) fails: in \<open>env_requires\<close> the declared package
  \<open>b\<close> is required by \<open>a\<close>, the run installs both and returns, and an inspection of the
  final state reports \<open>a\<close> alone.
\<close>

theorem sync_deps_convergence_counterexample:
  "fst (sync_deps 1 env_requires (config_of [''a'', ''b'']) world0) = Return ()
   \<and> fst (pip_get_installed env_requires (config_of [''a'', ''b'']) True
        (snd (sync_deps 1 env_requires (config_of [''a'', ''b'']) world0))) = Return [''a'']
   \<and> set [''a''] \<noteq> set (dependencies (config_of [''a'', ''b'']))"
  by (simp add: eval_defs)

text \<open>
  C1 as amended: when \<^verbatim>\<open>sync_deps\<close> returns, the last two calls of the run are an
  inspection and the snapshot, and every name of that inspection (lowercased, the entries
  named exactly \<^verbatim>\<open>pip\<close> or \<^verbatim>\<open>setuptools\<close> left out) is declared. Nothing undeclared
  remains; that every declared package is reported is not checked by the code.
\<close>

theorem sync_deps_leaves_no_undeclared:
  assumes "sync_deps n e config w = (Return (), w')"
  shows "\<exists>pre ns. new_calls w w' = pre @
        [answer e (calls w @ pre) (pip_list_cmd config),
         answer e (calls w @ pre @ [answer e (calls w @ pre) (pip_list_cmd config)])
           (pip_freeze_cmd config)]
     \<and> json_names e (stdout (answer e (calls w @ pre) (pip_list_cmd config))) = Some ns
     \<and> set (map lower (filter (\<lambda>x. x \<notin> base_packages) ns)) \<subseteq> set (dependencies config)"
proof -
  from sync_deps_Return [OF assms] obtain pre ns where p:
    "calls w' = calls w @ pre @
        [answer e (calls w @ pre) (pip_list_cmd config),
         answer e (calls w @ pre @ [answer e (calls w @ pre) (pip_list_cmd config)])
           (pip_freeze_cmd config)]"
    "json_names e (stdout (answer e (calls w @ pre) (pip_list_cmd config))) = Some ns"
    "to_uninstall (dependencies config)
          (map lower (filter (\<lambda>x. x \<notin> base_packages) ns)) = []"
    by blast
  from p(3) have "set (map lower (filter (\<lambda>x. x \<notin> base_packages) ns)) \<subseteq> set (dependencies config)"
    by (auto simp: to_uninstall_def filter_empty_conv)
  with p(1,2) show ?thesis
    by (intro exI [of _ pre] exI [of _ ns]) (simp add: new_calls_def)
qed

theorem sync_deps_leaves_no_undeclared_witness:
  "sync_deps 1 env_requires (config_of [''a'', ''b'']) world0
     = (Return (), snd (sync_deps 1 env_requires (config_of [''a'', ''b'']) world0))
   \<and> (\<exists>pre ns. new_calls world0 (snd (sync_deps 1 env_requires (config_of [''a'', ''b'']) world0))
         = pre @
          [answer env_requires (calls world0 @ pre) (pip_list_cmd (config_of [''a'', ''b''])),
           answer env_requires (calls world0 @ pre @
               [answer env_requires (calls world0 @ pre) (pip_list_cmd (config_of [''a'', ''b'']))])
             (pip_freeze_cmd (config_of [''a'', ''b'']))]
       \<and> json_names env_requires (stdout (answer env_requires (calls world0 @ pre)
            (pip_list_cmd (config_of [''a'', ''b''])))) = Some ns
       \<and> set (map lower (filter (\<lambda>x. x \<notin> base_packages) ns))
           \<subseteq> set (dependencies (config_of [''a'', ''b''])))"
proof -
  have r: "sync_deps 1 env_requires (config_of [''a'', ''b'']) world0
      = (Return (), snd (sync_deps 1 env_requires (config_of [''a'', ''b'']) world0))"
    by (simp only: run_requires snd_conv)
  from r sync_deps_leaves_no_undeclared [OF r] show ?thesis by (rule conjI)
qed

subsection \<open>C2: the install phase\<close>



subsection \<open>C3: one iteration of the removal loop\<close>

text \<open>
  C3. An iteration of the loop runs \<^verbatim>\<open>pip list\<close> in the current world and drops the base
  packages; \<open>extra\<close> holds the lowercased names that are not declared, in reported order.
  With no extra name the loop returns without a further call; otherwise it runs one
  \<^verbatim>\<open>pip uninstall\<close> of exactly these names and starts the next iteration, which inspects
  again; a failed call ends the run. In the log of the loop, whatever the fuel, every
  \<^verbatim>\<open>pip uninstall\<close> comes directly after the inspection its names were computed from, and
  when the loop returns its last call is an inspection with no extra name.
\<close>

theorem removal_iteration:
  "sync_loop (Suc n) e config w =
     (let l = answer e (calls w) (pip_list_cmd config); w1 = logged l w in
      if returncode l \<noteq> 0 then (Fail (SystemExit (- 1)), w1)
      else case json_names e (stdout l) of
          None \<Rightarrow> (Fail PyException, w1)
        | Some ns \<Rightarrow>
            let extra = to_uninstall (dependencies config)
                          (map lower (filter (\<lambda>x. x \<notin> base_packages) ns)) in
            if extra = [] then (Return (), w1)
            else let u = answer e (calls w1) (pip_uninstall_cmd config extra); w2 = logged u w1 in
                 if returncode u \<noteq> 0 then (Fail (SystemExit (- 1)), w2)
                 else sync_loop n e config w2)
   \<and> to_uninstall (dependencies config) installed
       = filter (\<lambda>p. p \<notin> set (dependencies config)) installed
   \<and> pip_uninstall_cmd config extra
       = [pip_bin config, ''uninstall'', ''--disable-pip-version-check''] @ extra
   \<and> (sync_loop m e config w = (r, w') \<and> new_calls w w' = pre @ u # post
        \<and> subcommand u = [''uninstall''] \<longrightarrow>
        (\<exists>pre' ns. pre = pre' @ [answer e (calls w @ pre') (pip_list_cmd config)]
           \<and> json_names e (stdout (answer e (calls w @ pre') (pip_list_cmd config))) = Some ns
           \<and> u = answer e (calls w @ pre)
               (pip_uninstall_cmd config (to_uninstall (dependencies config)
                  (map lower (filter (\<lambda>x. x \<notin> base_packages) ns))))))
   \<and> (sync_loop m e config w = (Return (), w') \<longrightarrow>
        (\<exists>pre ns. new_calls w w' = pre @ [answer e (calls w @ pre) (pip_list_cmd config)]
           \<and> json_names e (stdout (answer e (calls w @ pre) (pip_list_cmd config))) = Some ns
           \<and> to_uninstall (dependencies config)
                (map lower (filter (\<lambda>x. x \<notin> base_packages) ns)) = []))"
proof (intro conjI impI)
  show "sync_loop (Suc n) e config w =
     (let l = answer e (calls w) (pip_list_cmd config); w1 = logged l w in
      if returncode l \<noteq> 0 then (Fail (SystemExit (- 1)), w1)
      else case json_names e (stdout l) of
          None \<Rightarrow> (Fail PyException, w1)
        | Some ns \<Rightarrow>
            let extra = to_uninstall (dependencies config)
                          (map lower (filter (\<lambda>x. x \<notin> base_packages) ns)) in
            if extra = [] then (Return (), w1)
            else let u = answer e (calls w1) (pip_uninstall_cmd config extra); w2 = logged u w1 in
                 if returncode u \<noteq> 0 then (Fail (SystemExit (- 1)), w2)
                 else sync_loop n e config w2)"
    by (rule sync_loop_Suc)
next
  show "to_uninstall (dependencies config) installed
       = filter (\<lambda>p. p \<notin> set (dependencies config)) installed"
    by (simp add: to_uninstall_def)
next
  show "pip_uninstall_cmd config extra
       = [pip_bin config, ''uninstall'', ''--disable-pip-version-check''] @ extra"
    by (simp add: pip_uninstall_cmd_def)
next
  assume "sync_loop m e config w = (r, w') \<and> new_calls w w' = pre @ u # post
        \<and> subcommand u = [''uninstall'']"
  then show "\<exists>pre' ns. pre = pre' @ [answer e (calls w @ pre') (pip_list_cmd config)]
           \<and> json_names e (stdout (answer e (calls w @ pre') (pip_list_cmd config))) = Some ns
           \<and> u = answer e (calls w @ pre)
               (pip_uninstall_cmd config (to_uninstall (dependencies config)
                  (map lower (filter (\<lambda>x. x \<notin> base_packages) ns))))"
    using sync_loop_uninstalls [of m e config w r w' pre u post] by blast
next
  assume "sync_loop m e config w = (Return (), w')"
  from sync_loop_Return [OF this]
  show "\<exists>pre ns. new_calls w w' = pre @ [answer e (calls w @ pre) (pip_list_cmd config)]
           \<and> json_names e (stdout (answer e (calls w @ pre) (pip_list_cmd config))) = Some ns
           \<and> to_uninstall (dependencies config)
                (map lower (filter (\<lambda>x. x \<notin> base_packages) ns)) = []"
    by (auto simp: new_calls_def)
qed

theorem removal_iteration_witness:
  "sync_loop (Suc (Suc 0)) env_capital (config_of [''requests'']) world0
     = (Return (), snd (sync_loop (Suc (Suc 0)) env_capital (config_of [''requests'']) world0))
   \<and> new_calls world0 (snd (sync_loop (Suc (Suc 0)) env_capital (config_of [''requests'']) world0))
       = [\<lparr>cmd = pip_list_cmd (config_of [''requests'']), returncode = 0, stdout = ''before''\<rparr>]
         @ \<lparr>cmd = pip_uninstall_cmd (config_of [''requests'']) [''pip''], returncode = 0,
             stdout = ''out''\<rparr>
         # [\<lparr>cmd = pip_list_cmd (config_of [''requests'']), returncode = 0, stdout = ''after''\<rparr>]
   \<and> subcommand \<lparr>cmd = pip_uninstall_cmd (config_of [''requests'']) [''pip''], returncode = 0,
        stdout = ''out''\<rparr> = [''uninstall'']
   \<and> (\<exists>pre' ns.
        [\<lparr>cmd = pip_list_cmd (config_of [''requests'']), returncode = 0, stdout = ''before''\<rparr>]
          = pre' @ [answer env_capital (calls world0 @ pre') (pip_list_cmd (config_of [''requests'']))]
      \<and> json_names env_capital (stdout (answer env_capital (calls world0 @ pre')
           (pip_list_cmd (config_of [''requests''])))) = Some ns
      \<and> \<lparr>cmd = pip_uninstall_cmd (config_of [''requests'']) [''pip''], returncode = 0,
           stdout = ''out''\<rparr>
          = answer env_capital
              (calls world0 @
               [\<lparr>cmd = pip_list_cmd (config_of [''requests'']), returncode = 0,
                  stdout = ''before''\<rparr>])
              (pip_uninstall_cmd (config_of [''requests''])
                 (to_uninstall (dependencies (config_of [''requests'']))
                    (map lower (filter (\<lambda>x. x \<notin> base_packages) ns)))))
   \<and> (\<exists>pre ns.
        new_calls world0
          (snd (sync_loop (Suc (Suc 0)) env_capital (config_of [''requests'']) world0))
          = pre @ [answer env_capital (calls world0 @ pre) (pip_list_cmd (config_of [''requests'']))]
      \<and> json_names env_capital (stdout (answer env_capital (calls world0 @ pre)
           (pip_list_cmd (config_of [''requests''])))) = Some ns
      \<and> to_uninstall (dependencies (config_of [''requests'']))
           (map lower (filter (\<lambda>x. x \<notin> base_packages) ns)) = [])"
proof -
  let ?C = "config_of [''requests'']"
  let ?W = "snd (sync_loop (Suc (Suc 0)) env_capital ?C world0)"
  let ?l1 = "\<lparr>cmd = pip_list_cmd ?C, returncode = 0, stdout = ''before''\<rparr>"
  let ?u = "\<lparr>cmd = pip_uninstall_cmd ?C [''pip''], returncode = 0, stdout = ''out''\<rparr>"
  let ?l2 = "\<lparr>cmd = pip_list_cmd ?C, returncode = 0, stdout = ''after''\<rparr>"
  have r: "sync_loop (Suc (Suc 0)) env_capital ?C world0 = (Return (), ?W)"
    by (simp only: loop_capital snd_conv)
  have n: "new_calls world0 ?W = [?l1] @ ?u # [?l2]"
    unfolding loop_capital
    by (simp add: new_calls_def world0_def pip_list_cmd_def pip_uninstall_cmd_def pip_bin_def
        config_of_def)
  have s: "subcommand ?u = [''uninstall'']"
    by (simp add: subcommand_def pip_uninstall_cmd_def)
  note t = removal_iteration [of 0 env_capital ?C world0 "[]" "[]" "Suc (Suc 0)" "Return ()" ?W
      "[?l1]" ?u "[?l2]"]
  from t r n s have c1: "\<exists>pre' ns.
        [?l1] = pre' @ [answer env_capital (calls world0 @ pre') (pip_list_cmd ?C)]
      \<and> json_names env_capital (stdout (answer env_capital (calls world0 @ pre')
           (pip_list_cmd ?C))) = Some ns
      \<and> ?u = answer env_capital (calls world0 @ [?l1])
              (pip_uninstall_cmd ?C (to_uninstall (dependencies ?C)
                 (map lower (filter (\<lambda>x. x \<notin> base_packages) ns))))"
    by blast
  from t r have c2: "\<exists>pre ns.
        new_calls world0 ?W = pre @ [answer env_capital (calls world0 @ pre) (pip_list_cmd ?C)]
      \<and> json_names env_capital (stdout (answer env_capital (calls world0 @ pre)
           (pip_list_cmd ?C))) = Some ns
      \<and> to_uninstall (dependencies ?C)
           (map lower (filter (\<lambda>x. x \<notin> base_packages) ns)) = []"
    by blast
  from r n s c1 c2 show ?thesis by (intro conjI)
qed

subsection \<open>C4: base packages reported with capital letters\<close>

lemma lowercase_reports_protect_base:
  assumes "map lower ns = ns"
  shows "set (to_uninstall deps (map lower (filter (\<lambda>x. x \<notin> base_packages) ns)))
    \<inter> base_packages = {}"
proof -
  from assms have "\<forall>x \<in> set ns. lower x = x"
    by (metis map_eq_conv list.map_id0 id_apply)
  then show ?thesis by (auto simp: to_uninstall_def)
qed

text \<open>
  C4 does not hold of the code: \<^verbatim>\<open>pip_get_installed\<close> compares the name as reported with
  \<^verbatim>\<open>pip\<close> and \<^verbatim>\<open>setuptools\<close> and lowercases it afterwards. In \<open>env_capital\<close> the
  inspector reports \<^verbatim>\<open>Pip\<close>, and the run uninstalls \<^verbatim>\<open>pip\<close>. What the filter does
  guarantee is the lemma above: when all reported names are lowercase, no base package is
  in the batch.
\<close>

theorem capitalised_base_package_uninstalled:
  "fst (sync_deps (Suc (Suc 0)) env_capital (config_of [''requests'']) world0) = Return ()
   \<and> map cmd (calls (snd (sync_deps (Suc (Suc 0)) env_capital (config_of [''requests'']) world0))) =
       [[''.venv/bin/pip'', ''list'', ''--not-required'', ''--format'', ''json'',
         ''--disable-pip-version-check''],
        [''.venv/bin/pip'', ''list'', ''--not-required'', ''--format'', ''json'',
         ''--disable-pip-version-check''],
        [''.venv/bin/pip'', ''uninstall'', ''--disable-pip-version-check'', ''pip''],
        [''.venv/bin/pip'', ''list'', ''--not-required'', ''--format'', ''json'',
         ''--disable-pip-version-check''],
        [''.venv/bin/pip'', ''freeze'']]
   \<and> ''pip'' \<in> base_packages"
  by (simp add: eval_defs)

subsection \<open>C5: the first failed call ends the run\<close>

text \<open>
  C5. In every run of \<^verbatim>\<open>sync_deps\<close>, a call that returns a non-zero code is the last call
  of the run, the run ends with \<^verbatim>\<open>exit(-1)\<close>, and \<^verbatim>\<open>requirements.txt\<close> is as it was;
  when the failed call is \<^verbatim>\<open>pip install\<close>, the run holds no \<^verbatim>\<open>pip uninstall\<close>.
\<close>

theorem abort_on_first_failure:
  assumes "sync_deps n e config w = (r, w')"
    and "i < length (new_calls w w')"
    and "returncode (new_calls w w' ! i) \<noteq> 0"
  shows "Suc i = length (new_calls w w') \<and> r = Fail (SystemExit (- 1))
    \<and> requirements_txt w' = requirements_txt w
    \<and> (subcommand (new_calls w w' ! i) = [''install''] \<longrightarrow>
        list_all (\<lambda>x. subcommand x \<noteq> [''uninstall'']) (new_calls w w'))"
proof -
  from sync_deps_trace [OF assms(1)] obtain new where new: "calls w' = calls w @ new"
    "fits r new" "r = Return () \<or> requirements_txt w' = requirements_txt w"
    "no_uninstall_before_failed_install new"
    by blast
  then have n: "new_calls w w' = new" by (simp add: new_calls_def)
  from fits_failure [OF new(2)] assms(2,3) n
  have l: "Suc i = length new" "r = Fail (SystemExit (- 1))" by simp_all
  from l(1) have ne: "new \<noteq> []" by auto
  then have "last new = new ! (length new - 1)" by (rule last_conv_nth)
  with l(1) [symmetric] have "new ! i = last new" by simp
  with ne new(4) assms(3) n l new(3) show ?thesis
    by (auto simp: no_uninstall_before_failed_install_def)
qed

theorem abort_on_first_failure_witness:
  "sync_deps 1 env_install_fails (config_of [''x'']) world0
     = (Fail (SystemExit (- 1)), snd (sync_deps 1 env_install_fails (config_of [''x'']) world0))
   \<and> 1 < length (new_calls world0 (snd (sync_deps 1 env_install_fails (config_of [''x'']) world0)))
   \<and> returncode (new_calls world0
        (snd (sync_deps 1 env_install_fails (config_of [''x'']) world0)) ! 1) \<noteq> 0
   \<and> subcommand (new_calls world0
        (snd (sync_deps 1 env_install_fails (config_of [''x'']) world0)) ! 1) = [''install'']
   \<and> Suc 1 = length (new_calls world0
        (snd (sync_deps 1 env_install_fails (config_of [''x'']) world0)))
   \<and> requirements_txt (snd (sync_deps 1 env_install_fails (config_of [''x'']) world0))
       = requirements_txt world0
   \<and> list_all (\<lambda>x. subcommand x \<noteq> [''uninstall''])
        (new_calls world0 (snd (sync_deps 1 env_install_fails (config_of [''x'']) world0)))"
proof -
  let ?W = "snd (sync_deps 1 env_install_fails (config_of [''x'']) world0)"
  have r: "sync_deps 1 env_install_fails (config_of [''x'']) world0
      = (Fail (SystemExit (- 1)), ?W)"
    by (simp only: run_install_fails snd_conv)
  have i: "1 < length (new_calls world0 ?W)"
    unfolding run_install_fails by (simp add: new_calls_def world0_def)
  have f: "returncode (new_calls world0 ?W ! 1) \<noteq> 0"
    unfolding run_install_fails by (simp add: new_calls_def world0_def)
  have s: "subcommand (new_calls world0 ?W ! 1) = [''install'']"
    unfolding run_install_fails by (simp add: new_calls_def world0_def subcommand_def)
  from abort_on_first_failure [OF r i f] r i f s show ?thesis by blast
qed

subsection \<open>C6: the snapshot\<close>



subsection \<open>C9: the loop has no bound\<close>

text \<open>
  C9. When the inspector reports the same undeclared package after every uninstall, the
  run is still going whatever the fuel: with fuel \<open>n\<close> it has made \<open>n\<close> calls of
  \<^verbatim>\<open>pip uninstall\<close> and has not returned.
\<close>

theorem removal_loop_unbounded:
  "fst (sync_deps n (env_const [''leftover'']) (config_of []) world0) = OutOfFuel
   \<and> length (filter (\<lambda>x. subcommand x = [''uninstall''])
        (calls (snd (sync_deps n (env_const [''leftover'']) (config_of []) world0)))) = n"
proof -
  have m: "to_install (dependencies (config_of [])) [lower ''leftover''] = []"
    by (simp add: to_install_def config_of_def)
  have c: "length (filter (\<lambda>x. subcommand x = [''uninstall''])
      (concat (replicate n
        [\<lparr>cmd = pip_list_cmd (config_of []), returncode = 0, stdout = ''out''\<rparr>,
         \<lparr>cmd = pip_uninstall_cmd (config_of []) [''leftover''], returncode = 0,
           stdout = ''out''\<rparr>]))) = n"
    by (induction n) (simp_all add: subcommand_def pip_list_cmd_def pip_uninstall_cmd_def)
  have "sync_deps n (env_const [''leftover'']) (config_of []) world0 =
     (OutOfFuel, world0\<lparr>calls :=
        \<lparr>cmd = pip_list_cmd (config_of []), returncode = 0, stdout = ''out''\<rparr>
        # concat (replicate n
        [\<lparr>cmd = pip_list_cmd (config_of []), returncode = 0, stdout = ''out''\<rparr>,
         \<lparr>cmd = pip_uninstall_cmd (config_of []) [''leftover''], returncode = 0,
           stdout = ''out''\<rparr>])\<rparr>)"
    by (simp add: sync_deps_def ensure_venv_eq pip_get_installed_eq m stuck_loop logged_def
        world0_def)
  with c show ?thesis
    by (simp add: subcommand_def pip_list_cmd_def)
qed

subsection \<open>C10: a declared entry with a capital letter\<close>

text \<open>
  C10. A declared entry \<open>p\<close> with an uppercase letter is never among the names an
  inspection returns; it is in the install batch of every run whose first inspection
  returns, and the removal difference is the same as without it.
\<close>

theorem uppercase_entry_never_matches:
  assumes "p \<in> set (dependencies config)" and "list_ex is_upper p"
  shows "(pip_get_installed e config u w = (Return installed, w1) \<longrightarrow>
        p \<notin> set installed
      \<and> p \<in> set (to_install (dependencies config) installed)
      \<and> to_uninstall (dependencies config) installed
          = to_uninstall (removeAll p (dependencies config)) installed)
    \<and> (ensure_venv e config w = (Return (), w0)
        \<and> pip_get_installed e config False w0 = (Return installed0, w2) \<longrightarrow>
        p \<in> set (to_install (dependencies config) installed0)
      \<and> (\<exists>rest. calls (snd (sync_deps n e config w)) = calls w2
            @ answer e (calls w2)
                (pip_install_cmd config (to_install (dependencies config) installed0))
            # rest))"
proof (intro conjI impI)
  assume a: "pip_get_installed e config u w = (Return installed, w1)"
  from pip_get_installed_Return [OF a] assms(2) show n: "p \<notin> set installed"
    by (auto simp: upper_not_lowered)
  with assms(1) show "p \<in> set (to_install (dependencies config) installed)"
    by (simp add: to_install_def)
  from n show "to_uninstall (dependencies config) installed
      = to_uninstall (removeAll p (dependencies config)) installed"
    by (auto simp: to_uninstall_def intro: filter_cong)
next
  assume a: "ensure_venv e config w = (Return (), w0)
      \<and> pip_get_installed e config False w0 = (Return installed0, w2)"
  with pip_get_installed_Return [of e config False w0 installed0 w2] assms(2)
  have "p \<notin> set installed0"
    by (auto simp: upper_not_lowered)
  with assms(1) show m: "p \<in> set (to_install (dependencies config) installed0)"
    by (simp add: to_install_def)
  then have ne: "to_install (dependencies config) installed0 \<noteq> []" by auto
  obtain r w' where s: "sync_deps n e config w = (r, w')" by (cases "sync_deps n e config w")
  from a s sync_deps_prefix [of e config w w0 installed0 w2 n r w'] ne
  show "\<exists>rest. calls (snd (sync_deps n e config w)) = calls w2
      @ answer e (calls w2) (pip_install_cmd config (to_install (dependencies config) installed0))
      # rest"
    by auto
qed

theorem uppercase_entry_never_matches_witness:
  "''Flask'' \<in> set (dependencies (config_of [''Flask'']))
   \<and> list_ex is_upper ''Flask''
   \<and> pip_get_installed (env_const [''Flask'']) (config_of [''Flask'']) True world0
       = (Return [''flask''],
          logged (answer (env_const [''Flask'']) [] (pip_list_cmd (config_of [''Flask''])))
            world0)
   \<and> ''Flask'' \<notin> set [''flask'']
   \<and> ''Flask'' \<in> set (to_install (dependencies (config_of [''Flask''])) [''flask''])
   \<and> to_uninstall (dependencies (config_of [''Flask''])) [''flask'']
       = to_uninstall (removeAll ''Flask'' (dependencies (config_of [''Flask'']))) [''flask'']
   \<and> ensure_venv (env_const [''Flask'']) (config_of [''Flask'']) world0 = (Return (), world0)
   \<and> pip_get_installed (env_const [''Flask'']) (config_of [''Flask'']) False world0
       = (Return [''flask''],
          logged (answer (env_const [''Flask'']) [] (pip_list_cmd (config_of [''Flask''])))
            world0)
   \<and> (\<exists>rest. calls (snd (sync_deps 1 (env_const [''Flask'']) (config_of [''Flask'']) world0))
         = calls (logged (answer (env_const [''Flask'']) []
                    (pip_list_cmd (config_of [''Flask'']))) world0)
           @ answer (env_const [''Flask''])
               (calls (logged (answer (env_const [''Flask'']) []
                    (pip_list_cmd (config_of [''Flask'']))) world0))
               (pip_install_cmd (config_of [''Flask''])
                  (to_install (dependencies (config_of [''Flask''])) [''flask'']))
           # rest)"
proof -
  let ?E = "env_const [''Flask'']"
  let ?C = "config_of [''Flask'']"
  let ?w1 = "logged (answer ?E [] (pip_list_cmd ?C)) world0"
  have p: "''Flask'' \<in> set (dependencies ?C)"
    by (simp add: config_of_def)
  have u: "list_ex is_upper ''Flask''"
    by (simp add: is_upper_def)
  have g1: "pip_get_installed ?E ?C True world0 = (Return [''flask''], ?w1)"
    by (simp add: eval_defs)
  have g2: "pip_get_installed ?E ?C False world0 = (Return [''flask''], ?w1)"
    by (simp add: eval_defs)
  have v: "ensure_venv ?E ?C world0 = (Return (), world0)"
    by (simp add: ensure_venv_def)
  note t = uppercase_entry_never_matches [OF p u, of ?E True world0 "[''flask'']" ?w1
      world0 "[''flask'']" ?w1 1]
  from t g1 have c1: "''Flask'' \<notin> set [''flask'']
      \<and> ''Flask'' \<in> set (to_install (dependencies ?C) [''flask''])
      \<and> to_uninstall (dependencies ?C) [''flask'']
          = to_uninstall (removeAll ''Flask'' (dependencies ?C)) [''flask'']"
    by blast
  from t v g2 have c2: "\<exists>rest. calls (snd (sync_deps 1 ?E ?C world0))
         = calls ?w1 @ answer ?E (calls ?w1)
               (pip_install_cmd ?C (to_install (dependencies ?C) [''flask''])) # rest"
    by blast
  from p u g1 c1 v g2 c2 show ?thesis by (intro conjI) (simp_all only: simp_thms)
qed

end
